theory Spec2Isabelle
  imports Main "HOL-Library.Sublist"
begin

section \<open>The playground's streaming chat-completion handler\<close>

text \<open>
  The development embeds \<^verbatim>\<open>chatCompletionHandler\<close> of
  \<^verbatim>\<open>src/lib/components/playground/Chat.svelte\<close> (lines 127 to 222), with
  \<^verbatim>\<open>stopResponse\<close> (lines 71 to 74). The component's variables and the effects the
  handler has on its collaborators (notifications, requests, abort calls, the console, the
  reactive assignments \<^verbatim>\<open>messages = messages\<close>) are fields of one state record that
  every function takes and returns. What the handler receives from outside the file
  (the model store, \<^verbatim>\<open>JSON.parse\<close>, the response of \<^verbatim>\<open>chatCompletion\<close>, the DOM
  lookup, the chunks of the reader and the clicks on Cancel) is an environment record.
  \<^verbatim>\<open>splitStream\<close> of \<^verbatim>\<open>$lib/utils\<close>, through which line 175 pipes the body, is not
  among the source files; it is modelled from the specification.
  Sizing the textarea and scrolling the container change nothing the handler reads back
  and are left out; a missing textarea element is kept, since reading its \<^verbatim>\<open>style\<close> throws.
  A rejected \<^verbatim>\<open>await\<close> (a transport failure) is outside the model.
\<close>

subsection \<open>JavaScript values born from JSON\<close>

datatype js_error = SyntaxError | TypeError

text \<open>
  A value as \<^verbatim>\<open>JSON.parse\<close> builds it. A number is held as the text \<^verbatim>\<open>ToString\<close>
  gives it (so both zeros are \<open>''0''\<close>); an object is the list of its own properties,
  each name once. \<^verbatim>\<open>undefined\<close> is not a JSON value: an expression that may be
  undefined has type \<open>json option\<close>, with \<open>None\<close> for undefined.
\<close>

datatype json =
    JNull
  | JBool bool
  | JNum string
  | JStr string
  | JArr "json list"
  | JObj "(string \<times> json) list"

definition newline :: string where
  "newline = [CHR 0x0A]"

text \<open>\<^verbatim>\<open>v.name\<close>, for a name that no prototype defines (choices, delta, content).\<close>

definition member :: "json option \<Rightarrow> string \<Rightarrow> js_error + json option" where
  "member v name =
     (case v of
        None \<Rightarrow> Inl TypeError
      | Some JNull \<Rightarrow> Inl TypeError
      | Some (JObj props) \<Rightarrow> Inr (map_of props name)
      | Some _ \<Rightarrow> Inr None)"

text \<open>\<^verbatim>\<open>v[0]\<close>: the first element of an array, the property \<^verbatim>\<open>"0"\<close> of an object, the
  first character of a string.\<close>

definition element0 :: "json option \<Rightarrow> js_error + json option" where
  "element0 v =
     (case v of
        None \<Rightarrow> Inl TypeError
      | Some JNull \<Rightarrow> Inl TypeError
      | Some (JArr xs) \<Rightarrow> Inr (case xs of [] \<Rightarrow> None | x # _ \<Rightarrow> Some x)
      | Some (JObj props) \<Rightarrow> Inr (map_of props ''0'')
      | Some (JStr t) \<Rightarrow> Inr (case t of [] \<Rightarrow> None | c # _ \<Rightarrow> Some (JStr [c]))
      | Some _ \<Rightarrow> Inr None)"

text \<open>\<^verbatim>\<open>data.choices[0].delta.content\<close>\<close>

definition delta_content :: "json \<Rightarrow> js_error + json option" where
  "delta_content data =
     (case member (Some data) ''choices'' of
        Inl e \<Rightarrow> Inl e
      | Inr choices \<Rightarrow>
          (case element0 choices of
             Inl e \<Rightarrow> Inl e
           | Inr choice \<Rightarrow>
               (case member choice ''delta'' of
                  Inl e \<Rightarrow> Inl e
                | Inr delta \<Rightarrow> member delta ''content'')))"

text \<open>
  \<^verbatim>\<open>ToString(ToPrimitive(v))\<close>. An array joins its elements with commas, null as the empty
  text. An object born from JSON has no callable property of its own: one with a property
  named \<^verbatim>\<open>toString\<close> hides \<^verbatim>\<open>Object.prototype.toString\<close> and the conversion throws
  a TypeError (\<open>None\<close>); any other object gives \<^verbatim>\<open>[object Object]\<close>.
\<close>

fun to_primitive_string :: "json \<Rightarrow> string option"
  and join_elements :: "json list \<Rightarrow> string option" where
  "to_primitive_string JNull = Some ''null''"
| "to_primitive_string (JBool b) = Some (if b then ''true'' else ''false'')"
| "to_primitive_string (JNum r) = Some r"
| "to_primitive_string (JStr t) = Some t"
| "to_primitive_string (JArr xs) = join_elements xs"
| "to_primitive_string (JObj props) =
     (if ''toString'' \<in> fst ` set props then None else Some ''[object Object]'')"
| "join_elements [] = Some []"
| "join_elements (x # xs) =
     (case (if x = JNull then Some [] else to_primitive_string x) of
        None \<Rightarrow> None
      | Some t \<Rightarrow>
          (if xs = [] then Some t
           else (case join_elements xs of
                   None \<Rightarrow> None
                 | Some rest \<Rightarrow> Some (t @ '','' @ rest))))"

text \<open>
  \<^verbatim>\<open>c == '\n'\<close>, the loose equality: null and undefined equal no string; a number is
  compared with \<^verbatim>\<open>ToNumber('\n')\<close>, which is 0; a boolean is converted to a number first;
  an array or an object is converted to a primitive, a string here, first.
\<close>

definition loosely_equals_newline :: "json option \<Rightarrow> js_error + bool" where
  "loosely_equals_newline c =
     (case c of
        None \<Rightarrow> Inr False
      | Some JNull \<Rightarrow> Inr False
      | Some (JStr t) \<Rightarrow> Inr (t = newline)
      | Some (JNum r) \<Rightarrow> Inr (r = ''0'')
      | Some (JBool b) \<Rightarrow> Inr (\<not> b)
      | Some v \<Rightarrow>
          (case to_primitive_string v of
             None \<Rightarrow> Inl TypeError
           | Some t \<Rightarrow> Inr (t = newline)))"

text \<open>The text that \<^verbatim>\<open>content += c ?? ''\<close> appends.\<close>

definition appended_text :: "json option \<Rightarrow> js_error + string" where
  "appended_text c =
     (case c of
        None \<Rightarrow> Inr []
      | Some JNull \<Rightarrow> Inr []
      | Some v \<Rightarrow>
          (case to_primitive_string v of
             None \<Rightarrow> Inl TypeError
           | Some t \<Rightarrow> Inr t))"

subsection \<open>Strings\<close>

text \<open>\<^verbatim>\<open>value.split('\n')\<close>: the pieces between newlines; never the empty list.\<close>

fun split_newline :: "string \<Rightarrow> string list" where
  "split_newline [] = [[]]"
| "split_newline (c # cs) =
     (if [c] = newline then [] # split_newline cs
      else (case split_newline cs of
              [] \<Rightarrow> [[c]]
            | l # ls \<Rightarrow> (c # l) # ls))"

text \<open>\<^verbatim>\<open>line.replace(/^data: /, '')\<close>\<close>

definition strip_data_prefix :: "string \<Rightarrow> string" where
  "strip_data_prefix line = (if take 6 line = ''data: '' then drop 6 line else line)"

subsection \<open>State and environment\<close>

record turn =
  role :: string
  content :: string

record request_body =
  model :: string
  stream :: bool
  body_messages :: "turn list"

record request =
  request_token :: string
  request_body :: request_body
  request_url :: string

datatype log_entry = LogText string | LogValue json | LogError js_error

record handler_state =
  selectedModelId :: string
  system :: string
  messages :: "turn list"
  stopResponseFlag :: bool
  toasts :: "string list"
  requests :: "request list"
  aborts :: "string list"
  console :: "log_entry list"
  reads_issued :: nat
  rendered :: "turn list list"

text \<open>
  \<open>toasts\<close>: the texts given to \<^verbatim>\<open>toast.error\<close>; \<open>requests\<close>: the calls of
  \<^verbatim>\<open>chatCompletion\<close>; \<open>aborts\<close>: the reasons given to \<^verbatim>\<open>controller.abort\<close>;
  \<open>console\<close>: the arguments of \<^verbatim>\<open>console.log\<close>; \<open>reads_issued\<close>: the calls of
  \<^verbatim>\<open>reader.read()\<close>; \<open>rendered\<close>: the turn sequence at each reactive assignment
  \<^verbatim>\<open>messages = messages\<close>, which is what the bound view shows. All in call order.
\<close>

record known_model =
  model_id :: string

record response =
  ok :: bool

text \<open>
  What happens while the loop runs, in time order: the reader delivers a chunk, or the
  user's click calls \<^verbatim>\<open>stopResponse\<close>. When the list is used up the reader reports
  \<^verbatim>\<open>done\<close>. A click made while a chunk's lines are processed (at an \<^verbatim>\<open>await tick()\<close>)
  is read by the loop at the same point as one made while the next read is pending, and
  stands there. The list is finite: the stream ends. On a stream that never ends the
  handler does not return, and such a run is not a value of this model.
\<close>

datatype stream_event = Chunk string | StopClick

text \<open>
  Modelled from the spec: \<^verbatim>\<open>splitStream('\n')\<close>, the stage of line 175 between the decoded
  body and the reader, whose code is not among the source files. The specification (4.1,
  step 3) has the response body decoded as text and split into newline-delimited chunks:
  whatever pieces the decoder hands over, the reader delivers the body's text cut at its
  newlines, one value per line, none holding a newline. The loop's own
  \<^verbatim>\<open>value.split('\n')\<close> of line 188 then finds one line in each value. The properties
  that depend on what one value can hold take the events to be \<open>map Chunk (splitStream
  pieces)\<close>; the others hold for any values.
\<close>

definition splitStream :: "string list \<Rightarrow> string list" where
  "splitStream pieces = split_newline (concat pieces)"

record environment =
  models :: "known_model list"
  token :: string
  WEBUI_BASE_URL :: string
  i18n_t :: "string \<Rightarrow> string"
  JSON_parse :: "string \<Rightarrow> json option"
  res :: "response option"
  textareaElement :: bool
  events :: "stream_event list"

text \<open>
  \<open>JSON_parse\<close> gives \<open>None\<close> where \<^verbatim>\<open>JSON.parse\<close> throws its SyntaxError;
  \<open>res\<close> is \<open>None\<close> for a null response; \<open>textareaElement\<close> tells whether
  \<^verbatim>\<open>document.getElementById\<close> found the assistant turn's textarea.
\<close>

subsection \<open>Effects\<close>

definition console_log :: "log_entry \<Rightarrow> handler_state \<Rightarrow> handler_state" where
  "console_log entry s = s\<lparr>console := console s @ [entry]\<rparr>"

text \<open>\<^verbatim>\<open>messages = messages\<close>\<close>

definition invalidate :: "handler_state \<Rightarrow> handler_state" where
  "invalidate s = s\<lparr>rendered := rendered s @ [messages s]\<rparr>"

text \<open>\<^verbatim>\<open>stopResponse\<close>, lines 71 to 74.\<close>

definition stopResponse :: "handler_state \<Rightarrow> handler_state" where
  "stopResponse s = console_log (LogText ''stopResponse'') (s\<lparr>stopResponseFlag := True\<rparr>)"

text \<open>
  \<^verbatim>\<open>responseMessage\<close> is the object that stands last in \<^verbatim>\<open>messages\<close>: the handler
  reads and writes it only after lines 158 to 167 have made it so. Its content is read
  and extended through the list; on the empty list, which the loop never meets, there is
  nothing to read or extend.
\<close>

fun responseMessage_content :: "turn list \<Rightarrow> string" where
  "responseMessage_content [] = []"
| "responseMessage_content [m] = content m"
| "responseMessage_content (m # ms) = responseMessage_content ms"

fun responseMessage_append :: "string \<Rightarrow> turn list \<Rightarrow> turn list" where
  "responseMessage_append t [] = []"
| "responseMessage_append t [m] = [m\<lparr>content := content m @ t\<rparr>]"
| "responseMessage_append t (m # ms) = m # responseMessage_append t ms"

subsection \<open>The loop over the lines of a chunk (lines 190 to 214)\<close>

datatype completion = Normal | Throw js_error

text \<open>Line 200, with its short circuit: the delta is read only when the content is empty.\<close>

definition skip_test :: "handler_state \<Rightarrow> json \<Rightarrow> js_error + bool" where
  "skip_test s data =
     (if responseMessage_content (messages s) = [] then
        (case delta_content data of
           Inl e \<Rightarrow> Inl e
         | Inr c \<Rightarrow> loosely_equals_newline c)
      else Inr False)"

definition process_line ::
  "environment \<Rightarrow> handler_state \<Rightarrow> string \<Rightarrow> completion \<times> handler_state" where
  "process_line env s line =
     (if line = [] then (Normal, s)
      else
        let s1 = console_log (LogText line) s in
        if line = ''data: [DONE]'' then (Normal, invalidate s1)
        else
          (case JSON_parse env (strip_data_prefix line) of
             None \<Rightarrow> (Throw SyntaxError, s1)
           | Some data \<Rightarrow>
               let s2 = console_log (LogValue data) s1 in
               (case skip_test s2 data of
                  Inl e \<Rightarrow> (Throw e, s2)
                | Inr True \<Rightarrow> (Normal, s2)
                | Inr False \<Rightarrow>
                    if \<not> textareaElement env then (Throw TypeError, s2)
                    else
                      (case delta_content data of
                         Inl e \<Rightarrow> (Throw e, s2)
                       | Inr c \<Rightarrow>
                           (case appended_text c of
                              Inl e \<Rightarrow> (Throw e, s2)
                            | Inr t \<Rightarrow>
                                (Normal,
                                 invalidate
                                   (s2\<lparr>messages :=
                                         responseMessage_append t (messages s2)\<rparr>)))))))"

fun for_lines ::
  "environment \<Rightarrow> handler_state \<Rightarrow> string list \<Rightarrow> completion \<times> handler_state" where
  "for_lines env s [] = (Normal, s)"
| "for_lines env s (line # lines) =
     (case process_line env s line of
        (Normal, s') \<Rightarrow> for_lines env s' lines
      | (Throw e, s') \<Rightarrow> (Throw e, s'))"

text \<open>The body of the loop for one chunk, lines 187 to 219: the try and its catch.\<close>

definition process_chunk :: "environment \<Rightarrow> handler_state \<Rightarrow> string \<Rightarrow> handler_state" where
  "process_chunk env s chunk =
     (case for_lines env s (split_newline chunk) of
        (Normal, s') \<Rightarrow> s'
      | (Throw e, s') \<Rightarrow> console_log (LogError e) s')"

subsection \<open>The read loop (lines 178 to 220)\<close>

definition reader_read :: "handler_state \<Rightarrow> handler_state" where
  "reader_read s = s\<lparr>reads_issued := Suc (reads_issued s)\<rparr>"

definition controller_abort :: "string \<Rightarrow> handler_state \<Rightarrow> handler_state" where
  "controller_abort reason s = s\<lparr>aborts := aborts s @ [reason]\<rparr>"

text \<open>Lines 180 to 185, once the loop is to leave.\<close>

definition leave_loop :: "handler_state \<Rightarrow> handler_state" where
  "leave_loop s =
     (if stopResponseFlag s then controller_abort ''User: Stop Response'' s else s)"

text \<open>
  The state is the one in which \<^verbatim>\<open>reader.read()\<close> has been called and is pending; the
  events are what happens from then on. The loop puts no condition on the values it is
  handed; that they come out of \<open>splitStream\<close> is said where a property needs it.
\<close>

fun read_pending :: "environment \<Rightarrow> handler_state \<Rightarrow> stream_event list \<Rightarrow> handler_state" where
  "read_pending env s [] = leave_loop s"
| "read_pending env s (StopClick # evs) = read_pending env (stopResponse s) evs"
| "read_pending env s (Chunk v # evs) =
     (if stopResponseFlag s then leave_loop s
      else read_pending env (reader_read (process_chunk env s v)) evs)"

definition read_loop :: "environment \<Rightarrow> handler_state \<Rightarrow> handler_state" where
  "read_loop env s = read_pending env (reader_read s) (events env)"

subsection \<open>The handler (lines 127 to 222)\<close>

text \<open>Lines 144 to 152: the array with its first entry undefined when there is no system
  text, then the filter that keeps the truthy entries. A turn is an object, hence truthy.\<close>

definition payload_messages :: "handler_state \<Rightarrow> turn list" where
  "payload_messages s =
     map the
       (filter (\<lambda>message. message \<noteq> None)
          ((if system s \<noteq> [] then Some \<lparr>role = ''system'', content = system s\<rparr> else None)
           # map Some (messages s)))"

definition issue_request :: "environment \<Rightarrow> known_model \<Rightarrow> handler_state \<Rightarrow> handler_state" where
  "issue_request env m s =
     s\<lparr>requests := requests s @
         [\<lparr>request_token = token env,
           request_body =
             \<lparr>model = model_id m, stream = True, body_messages = payload_messages s\<rparr>,
           request_url = WEBUI_BASE_URL env @ ''/api''\<rparr>]\<rparr>"

text \<open>Lines 157 to 167. \<^verbatim>\<open>messages.at(-1)?.role\<close> is undefined on the empty array.\<close>

definition last_is_assistant :: "turn list \<Rightarrow> bool" where
  "last_is_assistant ms = (ms \<noteq> [] \<and> role (last ms) = ''assistant'')"

definition choose_responseMessage :: "handler_state \<Rightarrow> handler_state" where
  "choose_responseMessage s =
     (if last_is_assistant (messages s) then s
      else invalidate (s\<lparr>messages := messages s @ [\<lparr>role = ''assistant'', content = []\<rparr>]\<rparr>))"

definition chatCompletionHandler :: "environment \<Rightarrow> handler_state \<Rightarrow> handler_state" where
  "chatCompletionHandler env s =
     (if selectedModelId s = [] then
        s\<lparr>toasts := toasts s @ [i18n_t env ''Please select a model.'']\<rparr>
      else
        (case find (\<lambda>m. model_id m = selectedModelId s) (models env) of
           None \<Rightarrow> s\<lparr>selectedModelId := []\<rparr>
         | Some m \<Rightarrow>
             let s1 = choose_responseMessage (issue_request env m s) in
             (case res env of
                None \<Rightarrow> s1
              | Some r \<Rightarrow> if ok r then read_loop env s1 else s1)))"

subsection \<open>Example values\<close>

text \<open>The component as lines 35 to 61 initialise it, with no effect recorded yet.\<close>

definition idle :: handler_state where
  "idle =
     \<lparr>selectedModelId = [], system = [], messages = [], stopResponseFlag = False,
      toasts = [], requests = [], aborts = [], console = [], reads_issued = 0,
      rendered = []\<rparr>"

text \<open>The text of an event whose delta carries the given JSON string body, and its value.\<close>

definition event_text :: "string \<Rightarrow> string" where
  \<open>event_text t = ''{"choices":[{"delta":{"content":"'' @ t @ ''"}}]}''\<close>

definition event_json :: "json \<Rightarrow> json" where
  "event_json c =
     JObj [(''choices'', JArr [JObj [(''delta'', JObj [(''content'', c)])]])]"

text \<open>
  \<^verbatim>\<open>JSON.parse\<close> on the few texts the examples use: three events (the second one's
  content is the escape \<^verbatim>\<open>\n\<close>, a backslash and the letter n, which parses to one newline
  character) and an event with an empty delta. The examples hand it nothing else but texts
  that are not JSON.
\<close>

definition example_parse :: "string \<Rightarrow> json option" where
  \<open>example_parse x =
     (if x = event_text ''Hello'' then Some (event_json (JStr ''Hello''))
      else if x = event_text [CHR 0x5C, CHR ''n''] then Some (event_json (JStr newline))
      else if x = event_text ''world'' then Some (event_json (JStr ''world''))
      else if x = ''{"choices":[{"delta":{}}]}'' then
        Some (JObj [(''choices'', JArr [JObj [(''delta'', JObj [])]])])
      else None)\<close>

definition example_env :: "stream_event list \<Rightarrow> environment" where
  "example_env evs =
     \<lparr>models = [\<lparr>model_id = ''llama3''\<rparr>], token = ''secret'',
      WEBUI_BASE_URL = ''http://localhost:8080'', i18n_t = (\<lambda>key. key),
      JSON_parse = example_parse, res = Some \<lparr>ok = True\<rparr>, textareaElement = True,
      events = evs\<rparr>"

text \<open>A user has chosen the known model and sent one turn.\<close>

definition asked :: handler_state where
  "asked = idle\<lparr>selectedModelId := ''llama3'', messages := [\<lparr>role = ''user'', content = ''hi''\<rparr>]\<rparr>"

subsection \<open>Notions the properties are stated with\<close>

text \<open>The state once the loop has processed the given chunks in turn, none of them stopped,
  and has called \<^verbatim>\<open>reader.read()\<close> again after each.\<close>

fun after_chunks :: "environment \<Rightarrow> handler_state \<Rightarrow> string list \<Rightarrow> handler_state" where
  "after_chunks env s [] = s"
| "after_chunks env s (v # vs) = after_chunks env (reader_read (process_chunk env s v)) vs"

text \<open>
  The claims about the accumulated content speak of event lines, of the fragment a valid
  line carries, of the leading-newline rule and of concatenation in delivery order. The
  definitions from here to \<open>initial_content\<close> follow those words of the specification,
  not the handler's code; the theorems compare the handler with them.
\<close>

text \<open>A line the loop hands to the parser: not empty and not the terminate sentinel.\<close>

definition is_event_line :: "string \<Rightarrow> bool" where
  "is_event_line line = (line \<noteq> [] \<and> line \<noteq> ''data: [DONE]'')"

text \<open>
  The fragment of a line, if it is a valid event: the text after the prefix parses, the
  first choice's delta can be reached, and its content is a string, or is null or absent
  and counts as the empty string.
\<close>

definition fragment_of :: "environment \<Rightarrow> string \<Rightarrow> string option" where
  "fragment_of env line =
     (case JSON_parse env (strip_data_prefix line) of
        None \<Rightarrow> None
      | Some data \<Rightarrow>
          (case delta_content data of
             Inl e \<Rightarrow> None
           | Inr None \<Rightarrow> Some []
           | Inr (Some JNull) \<Rightarrow> Some []
           | Inr (Some (JStr t)) \<Rightarrow> Some t
           | Inr (Some _) \<Rightarrow> None))"

text \<open>
  The wire format gives the content field the type string. A line respects it when its
  delta content, if the line gets that far, is a string, null or absent, and not a number,
  a boolean, an array or an object.
\<close>

definition carries_text :: "environment \<Rightarrow> string \<Rightarrow> bool" where
  "carries_text env line =
     (case JSON_parse env (strip_data_prefix line) of
        None \<Rightarrow> True
      | Some data \<Rightarrow>
          (case delta_content data of
             Inl e \<Rightarrow> True
           | Inr None \<Rightarrow> True
           | Inr (Some JNull) \<Rightarrow> True
           | Inr (Some (JStr t)) \<Rightarrow> True
           | Inr (Some _) \<Rightarrow> False))"

text \<open>An event line that is not a valid event.\<close>

definition line_fails :: "environment \<Rightarrow> string \<Rightarrow> bool" where
  "line_fails env line = (is_event_line line \<and> fragment_of env line = None)"

text \<open>The fragments of the valid event lines among the given lines, in their order.\<close>

fun valid_fragments :: "environment \<Rightarrow> string list \<Rightarrow> string list" where
  "valid_fragments env [] = []"
| "valid_fragments env (line # lines) =
     (if is_event_line line then
        (case fragment_of env line of
           None \<Rightarrow> valid_fragments env lines
         | Some t \<Rightarrow> t # valid_fragments env lines)
      else valid_fragments env lines)"

text \<open>
  The leading-newline rule over a sequence of fragments, from the content accumulated so
  far: a fragment that is exactly one newline is dropped while the content is still empty;
  every other fragment is kept and extends the content.
\<close>

fun kept_fragments :: "string \<Rightarrow> string list \<Rightarrow> string list" where
  "kept_fragments acc [] = []"
| "kept_fragments acc (t # ts) =
     (if acc = [] \<and> t = newline then kept_fragments acc ts
      else t # kept_fragments (acc @ t) ts)"

text \<open>All lines of all chunks, in delivery order.\<close>

definition delivered_lines :: "string list \<Rightarrow> string list" where
  "delivered_lines vs = concat (map split_newline vs)"

text \<open>The lines of each chunk up to, and without, its first event line that is not a valid
  event; in delivery order.\<close>

definition applied_lines :: "environment \<Rightarrow> string list \<Rightarrow> string list" where
  "applied_lines env vs =
     concat (map (\<lambda>v. takeWhile (\<lambda>line. \<not> line_fails env line) (split_newline v)) vs)"

text \<open>The content of the assistant turn when streaming starts: that of a turn already
  there, or empty for the new one.\<close>

definition initial_content :: "turn list \<Rightarrow> string" where
  "initial_content ms = (if last_is_assistant ms then content (last ms) else [])"

text \<open>The errors among the console's entries, in order.\<close>

fun logged_errors :: "log_entry list \<Rightarrow> js_error list" where
  "logged_errors [] = []"
| "logged_errors (LogError e # entries) = e # logged_errors entries"
| "logged_errors (_ # entries) = logged_errors entries"

text \<open>
  The invariant of a session: \<open>shown\<close>, from position \<open>k\<close> on, lists turn sequences
  that all are \<open>others\<close> followed by one assistant turn, with contents that extend
  \<open>c0\<close> and each other in order, and \<open>ms\<close>, the turns now, is of the same form with a
  content that extends them all.
\<close>

definition steady_growth ::
  "turn list \<Rightarrow> string \<Rightarrow> nat \<Rightarrow> turn list \<Rightarrow> turn list list \<Rightarrow> bool" where
  "steady_growth others c0 k ms shown =
     (k \<le> length shown
      \<and> sorted_wrt prefix (map responseMessage_content (drop k shown))
      \<and> (\<exists>c. ms = others @ [\<lparr>role = ''assistant'', content = c\<rparr>] \<and> prefix c0 c
            \<and> (\<forall>x\<in>set (drop k shown).
                  \<exists>d. x = others @ [\<lparr>role = ''assistant'', content = d\<rparr>]
                    \<and> prefix c0 d \<and> prefix d c)))"

text \<open>
  An event line whose delta has no content; and a body of three lines, an event, a line that
  is not JSON and an event, which the decoder hands over in two pieces that part in the
  middle of the second line.
\<close>

definition empty_delta_line :: string where
  \<open>empty_delta_line = ''data: {"choices":[{"delta":{}}]}''\<close>

definition three_line_pieces :: "string list" where
  "three_line_pieces =
     [''data: '' @ event_text ''Hello'' @ newline @ ''data: {oo'',
      ''ps'' @ newline @ ''data: '' @ event_text ''world'']"

text \<open>The same body with the first event's fragment a single newline, in one piece.\<close>

definition newline_first_pieces :: "string list" where
  "newline_first_pieces =
     [''data: '' @ event_text [CHR 0x5C, CHR ''n''] @ newline @ ''data: {oops'' @ newline
      @ ''data: '' @ event_text ''world'']"

text \<open>
  The user has switched the role to assistant (line 434) and sent the turn \<open>''So''\<close>
  after the first one: lines 158 and 159 take it for the turn to extend.
\<close>

definition seeded :: handler_state where
  "seeded =
     asked\<lparr>messages :=
       [\<lparr>role = ''user'', content = ''hi''\<rparr>, \<lparr>role = ''assistant'', content = ''So''\<rparr>]\<rparr>"

section \<open>Properties\<close>

text \<open>The definitions that running the handler on an example unfolds.\<close>

lemmas run_simps =
  chatCompletionHandler_def example_env_def asked_def idle_def
  issue_request_def choose_responseMessage_def last_is_assistant_def invalidate_def
  read_loop_def reader_read_def process_chunk_def newline_def process_line_def
  console_log_def strip_data_prefix_def example_parse_def event_text_def event_json_def
  skip_test_def delta_content_def member_def element0_def loosely_equals_newline_def
  appended_text_def leave_loop_def payload_messages_def

lemmas notion_simps =
  delivered_lines_def applied_lines_def is_event_line_def fragment_of_def carries_text_def
  line_fails_def initial_content_def

subsection \<open>What the loop leaves alone\<close>

text \<open>The part of the state that processing a chunk never writes.\<close>

definition chunk_frame ::
  "handler_state \<Rightarrow> string \<times> string \<times> bool \<times> string list \<times> request list \<times> string list \<times> nat" where
  "chunk_frame s =
     (selectedModelId s, system s, stopResponseFlag s, toasts s, requests s, aborts s,
      reads_issued s)"

lemma process_line_frame: "chunk_frame (snd (process_line env s l)) = chunk_frame s"
  by (simp add: process_line_def chunk_frame_def Let_def console_log_def invalidate_def
      split: option.splits sum.splits bool.splits)

lemma for_lines_frame: "chunk_frame (snd (for_lines env s ls)) = chunk_frame s"
proof (induction ls arbitrary: s)
  case Nil
  show ?case by simp
next
  case (Cons l ls)
  obtain k s' where step: "process_line env s l = (k, s')"
    by (cases "process_line env s l")
  have "chunk_frame s' = chunk_frame s"
    using process_line_frame [of env s l] step by simp
  with step Cons.IH [of s'] show ?case
    by (cases k) simp_all
qed

lemma process_chunk_frame: "chunk_frame (process_chunk env s v) = chunk_frame s"
proof -
  obtain k s' where run: "for_lines env s (split_newline v) = (k, s')"
    by (cases "for_lines env s (split_newline v)")
  have "chunk_frame s' = chunk_frame s"
    using for_lines_frame [of env s "split_newline v"] run by simp
  with run show ?thesis
    by (cases k) (simp_all add: process_chunk_def console_log_def chunk_frame_def)
qed

lemma process_chunk_fields:
  "selectedModelId (process_chunk env s v) = selectedModelId s"
  "system (process_chunk env s v) = system s"
  "stopResponseFlag (process_chunk env s v) = stopResponseFlag s"
  "toasts (process_chunk env s v) = toasts s"
  "requests (process_chunk env s v) = requests s"
  "aborts (process_chunk env s v) = aborts s"
  "reads_issued (process_chunk env s v) = reads_issued s"
  using process_chunk_frame [of env s v] by (simp_all add: chunk_frame_def)

text \<open>The whole loop writes neither the selection, the system text, the notifications nor
  the requests.\<close>

lemma read_pending_fields:
  "selectedModelId (read_pending env s evs) = selectedModelId s
   \<and> system (read_pending env s evs) = system s
   \<and> toasts (read_pending env s evs) = toasts s
   \<and> requests (read_pending env s evs) = requests s"
proof (induction env s evs rule: read_pending.induct)
  case (1 env s)
  show ?case by (simp add: leave_loop_def controller_abort_def)
next
  case (2 env s evs)
  then show ?case by (simp add: stopResponse_def console_log_def)
next
  case (3 env s v evs)
  then show ?case
    by (simp add: leave_loop_def controller_abort_def reader_read_def process_chunk_fields)
qed

lemma read_loop_fields:
  "selectedModelId (read_loop env s) = selectedModelId s"
  "system (read_loop env s) = system s"
  "toasts (read_loop env s) = toasts s"
  "requests (read_loop env s) = requests s"
  using read_pending_fields [of env "reader_read s" "events env"]
  by (simp_all add: read_loop_def reader_read_def)

subsection \<open>The model precondition (lines 128 to 137)\<close>

lemma find_known_model:
  assumes "selectedModelId s \<in> model_id ` set (models env)"
  obtains m where "find (\<lambda>m. model_id m = selectedModelId s) (models env) = Some m"
    and "model_id m = selectedModelId s"
proof -
  from assms have "find (\<lambda>m. model_id m = selectedModelId s) (models env) \<noteq> None"
    by (auto simp: find_None_iff)
  then obtain m where f: "find (\<lambda>m. model_id m = selectedModelId s) (models env) = Some m"
    by blast
  then have "model_id m = selectedModelId s"
    by (auto simp: find_Some_iff)
  with f that show thesis by blast
qed

lemma find_unknown_model:
  "selectedModelId s \<notin> model_id ` set (models env) \<Longrightarrow>
   find (\<lambda>m. model_id m = selectedModelId s) (models env) = None"
  by (auto simp: find_None_iff image_iff)

text \<open>
  C3, as amended. The claim promises the notification for an empty selection and for a
  non-empty selection that names no known model. The handler notifies only in the first
  case (line 129); in the second it takes the guard of lines 134 to 137, which clears the
  selection and returns without a notification. In both cases no request is issued.
\<close>

theorem precondition_gating:
  assumes "selectedModelId s = [] \<or> selectedModelId s \<notin> model_id ` set (models env)"
  shows "requests (chatCompletionHandler env s) = requests s
    \<and> toasts (chatCompletionHandler env s) =
        toasts s @ (if selectedModelId s = [] then [i18n_t env ''Please select a model.''] else [])"
proof (cases "selectedModelId s = []")
  case True
  then show ?thesis by (simp add: chatCompletionHandler_def)
next
  case False
  with assms have "find (\<lambda>m. model_id m = selectedModelId s) (models env) = None"
    by (simp add: find_unknown_model)
  with False show ?thesis by (simp add: chatCompletionHandler_def)
qed

theorem precondition_gating_witness:
  "requests (chatCompletionHandler (example_env []) idle) = []
   \<and> toasts (chatCompletionHandler (example_env []) idle) = [''Please select a model.'']
   \<and> requests (chatCompletionHandler (example_env []) (idle\<lparr>selectedModelId := ''gpt-4''\<rparr>)) = []
   \<and> toasts (chatCompletionHandler (example_env []) (idle\<lparr>selectedModelId := ''gpt-4''\<rparr>)) = []"
  using precondition_gating [of idle "example_env []"]
    precondition_gating [of "idle\<lparr>selectedModelId := ''gpt-4''\<rparr>" "example_env []"]
  by (simp add: idle_def example_env_def)

text \<open>
  C3, as stated, fails: the selection \<open>''gpt-4''\<close> is not empty and names no known model
  (the store holds \<open>''llama3''\<close> only), and the handler surfaces no notification at all.
\<close>

theorem unknown_model_no_notification:
  "selectedModelId (idle\<lparr>selectedModelId := ''gpt-4''\<rparr>) \<noteq> []
   \<and> selectedModelId (idle\<lparr>selectedModelId := ''gpt-4''\<rparr>) \<notin> model_id ` set (models (example_env []))
   \<and> length (toasts (chatCompletionHandler (example_env []) (idle\<lparr>selectedModelId := ''gpt-4''\<rparr>))) \<noteq> 1"
  by (simp add: chatCompletionHandler_def idle_def example_env_def)

text \<open>
  C9. A non-empty selection that names no known model: the handler clears the selection
  and changes nothing else, so it issues no request and surfaces no notification.
\<close>

theorem unknown_model_resets_selection:
  assumes "selectedModelId s \<noteq> []"
    and "selectedModelId s \<notin> model_id ` set (models env)"
  shows "chatCompletionHandler env s = s\<lparr>selectedModelId := []\<rparr>"
  using assms by (simp add: chatCompletionHandler_def find_unknown_model)

theorem unknown_model_resets_selection_witness:
  "chatCompletionHandler (example_env []) (idle\<lparr>selectedModelId := ''gpt-4''\<rparr>) = idle"
  using unknown_model_resets_selection [of "idle\<lparr>selectedModelId := ''gpt-4''\<rparr>" "example_env []"]
  by (simp add: idle_def example_env_def)

subsection \<open>The request (lines 139 to 155)\<close>

lemma filter_truthy: "map the (filter (\<lambda>message. message \<noteq> None) (map Some ms)) = ms"
  by (induction ms) simp_all

lemma payload_messages_eq:
  "payload_messages s =
     (if system s = [] then messages s
      else \<lparr>role = ''system'', content = system s\<rparr> # messages s)"
  by (simp add: payload_messages_def filter_truthy)

lemma choose_responseMessage_fields:
  "selectedModelId (choose_responseMessage s) = selectedModelId s"
  "toasts (choose_responseMessage s) = toasts s"
  "requests (choose_responseMessage s) = requests s"
  "aborts (choose_responseMessage s) = aborts s"
  "console (choose_responseMessage s) = console s"
  "reads_issued (choose_responseMessage s) = reads_issued s"
  "stopResponseFlag (choose_responseMessage s) = stopResponseFlag s"
  by (simp_all add: choose_responseMessage_def invalidate_def)

text \<open>
  C8. Past the model precondition the handler issues one request, whose body holds the
  selected model identifier, the streaming flag set, and the turns in their order, the
  system turn first exactly when the system text is not empty; the undefined entry that
  stands for a missing system text is filtered out and nothing else is. Nothing later in
  the handler issues another request.
\<close>

theorem request_payload:
  assumes "selectedModelId s \<noteq> []"
    and "selectedModelId s \<in> model_id ` set (models env)"
  shows "requests (chatCompletionHandler env s) =
     requests s @
       [\<lparr>request_token = token env,
         request_body =
           \<lparr>model = selectedModelId s, stream = True,
            body_messages =
              (if system s = [] then messages s
               else \<lparr>role = ''system'', content = system s\<rparr> # messages s)\<rparr>,
         request_url = WEBUI_BASE_URL env @ ''/api''\<rparr>]"
proof -
  from assms(2) obtain m
    where f: "find (\<lambda>m. model_id m = selectedModelId s) (models env) = Some m"
      and m: "model_id m = selectedModelId s"
    by (rule find_known_model)
  have "requests (chatCompletionHandler env s) = requests (issue_request env m s)"
    using assms(1) f
    by (simp add: chatCompletionHandler_def Let_def read_loop_fields
        choose_responseMessage_fields split: option.splits)
  then show ?thesis
    using m by (simp add: issue_request_def payload_messages_eq)
qed

theorem request_payload_witness:
  "requests (chatCompletionHandler (example_env []) (asked\<lparr>system := ''Be brief.''\<rparr>)) =
     [\<lparr>request_token = ''secret'',
       request_body =
         \<lparr>model = ''llama3'', stream = True,
          body_messages =
            [\<lparr>role = ''system'', content = ''Be brief.''\<rparr>, \<lparr>role = ''user'', content = ''hi''\<rparr>]\<rparr>,
       request_url = ''http://localhost:8080/api''\<rparr>]
   \<and> body_messages (request_body (last (requests (chatCompletionHandler (example_env []) asked)))) =
       [\<lparr>role = ''user'', content = ''hi''\<rparr>]"
  using request_payload [of "asked\<lparr>system := ''Be brief.''\<rparr>" "example_env []"]
    request_payload [of asked "example_env []"]
  by (simp add: asked_def idle_def example_env_def)

subsection \<open>A response that is not ok (line 172)\<close>

text \<open>
  C6. When the response's ok flag is false the handler stops after lines 157 to 170: the
  reader is never read, so no chunk is processed, nothing is logged and nothing aborted;
  the one request is not repeated; and the turn sequence is the one it was, followed by
  an assistant turn of empty content when its last turn was not an assistant turn already.
\<close>

theorem non_ok_response_short_circuit:
  assumes "selectedModelId s \<noteq> []"
    and "selectedModelId s \<in> model_id ` set (models env)"
    and "res env = Some r"
    and "\<not> ok r"
  shows "reads_issued (chatCompletionHandler env s) = reads_issued s
    \<and> console (chatCompletionHandler env s) = console s
    \<and> aborts (chatCompletionHandler env s) = aborts s
    \<and> length (requests (chatCompletionHandler env s)) = Suc (length (requests s))
    \<and> messages (chatCompletionHandler env s) =
        (if last_is_assistant (messages s) then messages s
         else messages s @ [\<lparr>role = ''assistant'', content = []\<rparr>])"
proof -
  from assms(2) obtain m
    where f: "find (\<lambda>m. model_id m = selectedModelId s) (models env) = Some m"
    by (rule find_known_model)
  have "chatCompletionHandler env s = choose_responseMessage (issue_request env m s)"
    using assms(1,3,4) f by (simp add: chatCompletionHandler_def)
  then show ?thesis
    by (simp add: choose_responseMessage_def issue_request_def invalidate_def)
qed

theorem non_ok_response_short_circuit_witness:
  "reads_issued
     (chatCompletionHandler
        ((example_env [Chunk (''data: '' @ event_text ''Hello'')])\<lparr>res := Some \<lparr>ok = False\<rparr>\<rparr>) asked) = 0
   \<and> messages
     (chatCompletionHandler
        ((example_env [Chunk (''data: '' @ event_text ''Hello'')])\<lparr>res := Some \<lparr>ok = False\<rparr>\<rparr>) asked) =
       [\<lparr>role = ''user'', content = ''hi''\<rparr>, \<lparr>role = ''assistant'', content = []\<rparr>]"
  using non_ok_response_short_circuit
    [of asked "(example_env [Chunk (''data: '' @ event_text ''Hello'')])\<lparr>res := Some \<lparr>ok = False\<rparr>\<rparr>"
        "\<lparr>ok = False\<rparr>"]
  by (simp add: asked_def idle_def example_env_def last_is_assistant_def)

subsection \<open>The terminate sentinel (lines 193 to 195)\<close>




subsection \<open>The assistant turn through the list\<close>

lemma responseMessage_content_last:
  "ms \<noteq> [] \<Longrightarrow> responseMessage_content ms = content (last ms)"
  by (induction ms rule: responseMessage_content.induct) simp_all

lemma responseMessage_append_last:
  "ms \<noteq> [] \<Longrightarrow>
   responseMessage_append t ms = butlast ms @ [(last ms)\<lparr>content := content (last ms) @ t\<rparr>]"
  by (induction t ms rule: responseMessage_append.induct) simp_all

lemma responseMessage_append_nonempty:
  "ms \<noteq> [] \<Longrightarrow> responseMessage_append t ms \<noteq> []"
  by (simp add: responseMessage_append_last)

lemma responseMessage_append_content:
  "ms \<noteq> [] \<Longrightarrow>
   responseMessage_content (responseMessage_append t ms) = responseMessage_content ms @ t"
  by (simp add: responseMessage_append_last responseMessage_content_last)

lemma responseMessage_append_same:
  assumes "ms \<noteq> []"
  shows "responseMessage_append t ms = ms \<longleftrightarrow> t = []"
proof
  assume "responseMessage_append t ms = ms"
  then have "responseMessage_content (responseMessage_append t ms) = responseMessage_content ms"
    by simp
  with assms show "t = []" by (simp add: responseMessage_append_content)
next
  assume "t = []"
  with assms show "responseMessage_append t ms = ms"
    by (simp add: responseMessage_append_last)
qed

subsection \<open>The leading newline (lines 200 to 211)\<close>

text \<open>
  C5. A line whose delta content is the one-character string newline, met while the turn
  sequence holds the assistant turn and its textarea exists: the line completes normally;
  when the accumulated content is empty the fragment is skipped (the turns are exactly
  what they were) and the content stays empty; when it is not empty the newline is
  appended at its end. So the fragment is skipped if and only if the content is empty.
\<close>

theorem leading_newline_suppression:
  assumes "line \<noteq> []"
    and "line \<noteq> ''data: [DONE]''"
    and "JSON_parse env (strip_data_prefix line) = Some data"
    and "delta_content data = Inr (Some (JStr newline))"
    and "textareaElement env"
    and "messages s \<noteq> []"
  shows "fst (process_line env s line) = Normal
    \<and> responseMessage_content (messages (snd (process_line env s line))) =
        (if responseMessage_content (messages s) = [] then []
         else responseMessage_content (messages s) @ newline)
    \<and> (messages (snd (process_line env s line)) = messages s
         \<longleftrightarrow> responseMessage_content (messages s) = [])"
proof (cases "responseMessage_content (messages s) = []")
  case True
  with assms(1-4) have "process_line env s line =
      (Normal, console_log (LogValue data) (console_log (LogText line) s))"
    by (simp add: process_line_def skip_test_def loosely_equals_newline_def console_log_def)
  with True show ?thesis by (simp add: console_log_def)
next
  case False
  with assms(1-5) have "process_line env s line =
      (Normal,
       invalidate
         ((console_log (LogValue data) (console_log (LogText line) s))
            \<lparr>messages := responseMessage_append newline (messages s)\<rparr>))"
    by (simp add: process_line_def skip_test_def appended_text_def console_log_def)
  with False assms(6) show ?thesis
    by (simp add: invalidate_def responseMessage_append_content responseMessage_append_same
        newline_def)
qed

theorem leading_newline_suppression_witness:
  "responseMessage_content
     (messages (snd (process_line (example_env [])
        (asked\<lparr>messages := [\<lparr>role = ''assistant'', content = []\<rparr>]\<rparr>)
        (''data: '' @ event_text [CHR 0x5C, CHR ''n''])))) = []
   \<and> responseMessage_content
     (messages (snd (process_line (example_env [])
        (asked\<lparr>messages := [\<lparr>role = ''assistant'', content = ''Hello''\<rparr>]\<rparr>)
        (''data: '' @ event_text [CHR 0x5C, CHR ''n''])))) = ''Hello'' @ newline"
  using
    leading_newline_suppression
      [of "''data: '' @ event_text [CHR 0x5C, CHR ''n'']" "example_env []"
          "event_json (JStr newline)" "asked\<lparr>messages := [\<lparr>role = ''assistant'', content = []\<rparr>]\<rparr>"]
    leading_newline_suppression
      [of "''data: '' @ event_text [CHR 0x5C, CHR ''n'']" "example_env []"
          "event_json (JStr newline)"
          "asked\<lparr>messages := [\<lparr>role = ''assistant'', content = ''Hello''\<rparr>]\<rparr>"]
  by (simp add: example_env_def example_parse_def event_text_def event_json_def
      strip_data_prefix_def delta_content_def member_def element0_def asked_def idle_def)

subsection \<open>Cancellation (lines 180 to 185)\<close>

lemma process_line_events: "process_line (env\<lparr>events := evs\<rparr>) s l = process_line env s l"
  by (simp add: process_line_def Let_def split: option.splits sum.splits bool.splits)

lemma for_lines_events: "for_lines (env\<lparr>events := evs\<rparr>) s ls = for_lines env s ls"
  by (induction ls arbitrary: s)
    (simp_all add: process_line_events split: prod.splits completion.splits)

lemma process_chunk_events: "process_chunk (env\<lparr>events := evs\<rparr>) s v = process_chunk env s v"
  by (simp add: process_chunk_def for_lines_events)

lemma read_pending_events:
  "read_pending (env\<lparr>events := evs'\<rparr>) s evs = read_pending env s evs"
proof (induction evs arbitrary: s)
  case Nil
  show ?case by simp
next
  case (Cons ev evs)
  then show ?case by (cases ev) (simp_all add: process_chunk_events)
qed

lemma after_chunks_fields:
  "stopResponseFlag (after_chunks env s vs) = stopResponseFlag s
   \<and> aborts (after_chunks env s vs) = aborts s
   \<and> reads_issued (after_chunks env s vs) = reads_issued s + length vs"
  by (induction vs arbitrary: s) (simp_all add: reader_read_def process_chunk_fields)

lemma read_pending_chunks:
  "\<not> stopResponseFlag s \<Longrightarrow>
   read_pending env s (map Chunk vs @ evs) = read_pending env (after_chunks env s vs) evs"
  by (induction vs arbitrary: s) (simp_all add: reader_read_def process_chunk_fields)

lemma read_pending_exhausted:
  "\<not> stopResponseFlag s \<Longrightarrow> read_pending env s (map Chunk vs) = after_chunks env s vs"
  using read_pending_chunks [of s env vs "[]"] after_chunks_fields [of env s vs]
  by (simp add: leave_loop_def)

lemma read_pending_stopped:
  "stopResponseFlag s \<Longrightarrow>
   messages (read_pending env s evs) = messages s
   \<and> rendered (read_pending env s evs) = rendered s
   \<and> reads_issued (read_pending env s evs) = reads_issued s
   \<and> aborts (read_pending env s evs) = aborts s @ [''User: Stop Response'']"
proof (induction evs arbitrary: s)
  case Nil
  then show ?case by (simp add: leave_loop_def controller_abort_def)
next
  case (Cons ev evs)
  show ?case
  proof (cases ev)
    case (Chunk v)
    with Cons.prems show ?thesis by (simp add: leave_loop_def controller_abort_def)
  next
    case StopClick
    have "stopResponseFlag (stopResponse s)"
      by (simp add: stopResponse_def console_log_def)
    from Cons.IH [OF this] StopClick show ?thesis
      by (simp add: stopResponse_def console_log_def)
  qed
qed

lemma handler_runs_loop:
  assumes "selectedModelId s \<noteq> []"
    and "find (\<lambda>m. model_id m = selectedModelId s) (models env) = Some m"
    and "res env = Some r"
    and "ok r"
  shows "chatCompletionHandler env s =
     read_pending env (reader_read (choose_responseMessage (issue_request env m s))) (events env)"
  using assms by (simp add: chatCompletionHandler_def read_loop_def)

lemma issue_request_events: "issue_request (env\<lparr>events := evs\<rparr>) m s = issue_request env m s"
  by (simp add: issue_request_def)

text \<open>
  C4. The stop flag is clear when the handler starts; the reader delivers the chunks
  \<open>vs\<close>, each processed in full; then the user clicks Cancel, whatever happens after
  that (more chunks, more clicks, or the end of the stream). The turns and what the view
  was shown are exactly those of a run whose stream ends after \<open>vs\<close>, so every
  fragment of the chunks in hand is applied and nothing of a later chunk is; the abort is
  called once, with the reason \<^verbatim>\<open>User: Stop Response\<close> (and never in the run that
  ends by itself); and the reader was read once per chunk of \<open>vs\<close> and once more,
  the flag being looked at only when a read has returned.
\<close>

theorem cancellation_boundary:
  assumes "selectedModelId s \<noteq> []"
    and "selectedModelId s \<in> model_id ` set (models env)"
    and "res env = Some r"
    and "ok r"
    and "\<not> stopResponseFlag s"
    and "events env = map Chunk vs @ StopClick # rest"
  shows "messages (chatCompletionHandler env s) =
      messages (chatCompletionHandler (env\<lparr>events := map Chunk vs\<rparr>) s)
    \<and> rendered (chatCompletionHandler env s) =
      rendered (chatCompletionHandler (env\<lparr>events := map Chunk vs\<rparr>) s)
    \<and> aborts (chatCompletionHandler env s) = aborts s @ [''User: Stop Response'']
    \<and> aborts (chatCompletionHandler (env\<lparr>events := map Chunk vs\<rparr>) s) = aborts s
    \<and> reads_issued (chatCompletionHandler env s) = reads_issued s + length vs + 1"
proof -
  from assms(2) obtain m
    where f: "find (\<lambda>m. model_id m = selectedModelId s) (models env) = Some m"
    by (rule find_known_model)
  define s0 where "s0 = reader_read (choose_responseMessage (issue_request env m s))"
  have flag0: "\<not> stopResponseFlag s0"
    using assms(5)
    by (simp add: s0_def reader_read_def choose_responseMessage_fields issue_request_def)
  have fields0: "aborts s0 = aborts s" "reads_issued s0 = Suc (reads_issued s)"
    by (simp_all add: s0_def reader_read_def choose_responseMessage_fields issue_request_def)
  define s1 where "s1 = after_chunks env s0 vs"
  have fields1: "\<not> stopResponseFlag s1" "aborts s1 = aborts s"
    "reads_issued s1 = Suc (reads_issued s) + length vs"
    using after_chunks_fields [of env s0 vs] flag0 fields0 by (simp_all add: s1_def)
  have full: "chatCompletionHandler env s = read_pending env (stopResponse s1) rest"
    using handler_runs_loop [OF assms(1) f assms(3,4)] assms(6)
      read_pending_chunks [OF flag0, of env vs "StopClick # rest"]
    by (simp add: s0_def s1_def)
  have cut: "chatCompletionHandler (env\<lparr>events := map Chunk vs\<rparr>) s = s1"
    using handler_runs_loop [of s "env\<lparr>events := map Chunk vs\<rparr>" m r] assms(1,3,4) f
      read_pending_exhausted [OF flag0, of env vs]
    by (simp add: s0_def s1_def read_pending_events issue_request_events)
  have "stopResponseFlag (stopResponse s1)"
    by (simp add: stopResponse_def console_log_def)
  from read_pending_stopped [OF this, of env rest] fields1 show ?thesis
    unfolding full cut by (simp add: stopResponse_def console_log_def)
qed

theorem cancellation_boundary_witness:
  "messages
     (chatCompletionHandler
        (example_env [Chunk (''data: '' @ event_text ''Hello''), StopClick,
                      Chunk (''data: '' @ event_text ''world'')]) asked) =
     [\<lparr>role = ''user'', content = ''hi''\<rparr>, \<lparr>role = ''assistant'', content = ''Hello''\<rparr>]
   \<and> aborts
     (chatCompletionHandler
        (example_env [Chunk (''data: '' @ event_text ''Hello''), StopClick,
                      Chunk (''data: '' @ event_text ''world'')]) asked) =
     [''User: Stop Response'']
   \<and> reads_issued
     (chatCompletionHandler
        (example_env [Chunk (''data: '' @ event_text ''Hello''), StopClick,
                      Chunk (''data: '' @ event_text ''world'')]) asked) = 2"
proof -
  have run: "messages
     (chatCompletionHandler (example_env [Chunk (''data: '' @ event_text ''Hello'')]) asked) =
     [\<lparr>role = ''user'', content = ''hi''\<rparr>, \<lparr>role = ''assistant'', content = ''Hello''\<rparr>]"
    by (simp add: chatCompletionHandler_def example_env_def asked_def idle_def
        issue_request_def choose_responseMessage_def last_is_assistant_def invalidate_def
        read_loop_def reader_read_def process_chunk_def newline_def process_line_def
        console_log_def strip_data_prefix_def example_parse_def event_text_def event_json_def
        skip_test_def delta_content_def member_def element0_def loosely_equals_newline_def
        appended_text_def leave_loop_def payload_messages_def)
  have cut: "(example_env [Chunk (''data: '' @ event_text ''Hello''), StopClick,
                  Chunk (''data: '' @ event_text ''world'')])
        \<lparr>events := map Chunk [''data: '' @ event_text ''Hello'']\<rparr> =
      example_env [Chunk (''data: '' @ event_text ''Hello'')]"
    by (simp add: example_env_def)
  show ?thesis
    using cancellation_boundary
      [of asked "example_env [Chunk (''data: '' @ event_text ''Hello''), StopClick,
                      Chunk (''data: '' @ event_text ''world'')]"
          "\<lparr>ok = True\<rparr>" "[''data: '' @ event_text ''Hello'']"
          "[Chunk (''data: '' @ event_text ''world'')]"]
    unfolding cut run
    by (simp add: example_env_def asked_def idle_def)
qed

subsection \<open>The accumulated content (lines 187 to 217)\<close>

lemma fragment_of_Some:
  assumes "fragment_of env l = Some t"
  obtains data c where "JSON_parse env (strip_data_prefix l) = Some data"
    and "delta_content data = Inr c"
    and "loosely_equals_newline c = Inr (t = newline)"
    and "appended_text c = Inr t"
proof -
  from assms obtain data where p: "JSON_parse env (strip_data_prefix l) = Some data"
    by (auto simp: fragment_of_def split: option.splits)
  with assms obtain c where d: "delta_content data = Inr c"
    by (auto simp: fragment_of_def split: sum.splits)
  from assms p d have "loosely_equals_newline c = Inr (t = newline) \<and> appended_text c = Inr t"
    by (auto simp: fragment_of_def loosely_equals_newline_def appended_text_def newline_def
        split: option.splits json.splits)
  with p d that show thesis by blast
qed

lemma fragment_of_None:
  assumes "fragment_of env l = None" and "carries_text env l"
  shows "JSON_parse env (strip_data_prefix l) = None
    \<or> (\<exists>data e. JSON_parse env (strip_data_prefix l) = Some data \<and> delta_content data = Inl e)"
  using assms
  by (auto simp: fragment_of_def carries_text_def split: option.splits sum.splits json.splits)

lemma process_line_other:
  "\<not> is_event_line l \<Longrightarrow>
   fst (process_line env s l) = Normal \<and> messages (snd (process_line env s l)) = messages s"
  by (auto simp: is_event_line_def process_line_def invalidate_def console_log_def)

lemma process_line_failing:
  assumes "is_event_line l" and "carries_text env l" and "fragment_of env l = None"
  shows "\<exists>e. fst (process_line env s l) = Throw e"
    and "messages (snd (process_line env s l)) = messages s"
proof -
  from fragment_of_None [OF assms(3,2)]
  consider "JSON_parse env (strip_data_prefix l) = None"
    | data e where "JSON_parse env (strip_data_prefix l) = Some data" "delta_content data = Inl e"
    by auto
  then have "(\<exists>e. fst (process_line env s l) = Throw e)
      \<and> messages (snd (process_line env s l)) = messages s"
  proof cases
    case 1
    with assms(1) show ?thesis
      by (simp add: is_event_line_def process_line_def console_log_def)
  next
    case 2
    with assms(1) show ?thesis
      by (simp add: is_event_line_def process_line_def console_log_def skip_test_def Let_def)
  qed
  then show "\<exists>e. fst (process_line env s l) = Throw e"
    and "messages (snd (process_line env s l)) = messages s"
    by blast+
qed

lemma process_line_fragment:
  assumes "is_event_line l" and "fragment_of env l = Some t" and "textareaElement env"
  shows "fst (process_line env s l) = Normal"
    and "messages (snd (process_line env s l)) =
      (if responseMessage_content (messages s) = [] \<and> t = newline then messages s
       else responseMessage_append t (messages s))"
proof -
  from assms(2) obtain data c where p: "JSON_parse env (strip_data_prefix l) = Some data"
    and d: "delta_content data = Inr c"
    and q: "loosely_equals_newline c = Inr (t = newline)"
    and a: "appended_text c = Inr t"
    by (rule fragment_of_Some)
  have "fst (process_line env s l) = Normal
    \<and> messages (snd (process_line env s l)) =
      (if responseMessage_content (messages s) = [] \<and> t = newline then messages s
       else responseMessage_append t (messages s))"
    using assms(1,3) p d q a
    by (simp add: is_event_line_def process_line_def console_log_def skip_test_def
        invalidate_def Let_def)
  then show "fst (process_line env s l) = Normal"
    and "messages (snd (process_line env s l)) =
      (if responseMessage_content (messages s) = [] \<and> t = newline then messages s
       else responseMessage_append t (messages s))"
    by blast+
qed

lemma kept_fragments_append:
  "kept_fragments acc (ts @ us) =
     kept_fragments acc ts @ kept_fragments (acc @ concat (kept_fragments acc ts)) us"
  by (induction ts arbitrary: acc) simp_all

lemma valid_fragments_append:
  "valid_fragments env (ls @ ls') = valid_fragments env ls @ valid_fragments env ls'"
  by (induction ls) (simp_all split: option.splits)

lemma for_lines_content:
  assumes "textareaElement env"
    and "\<forall>l\<in>set ls. carries_text env l"
    and "messages s \<noteq> []"
  shows "messages (snd (for_lines env s ls)) \<noteq> []
    \<and> responseMessage_content (messages (snd (for_lines env s ls))) =
        responseMessage_content (messages s) @
        concat (kept_fragments (responseMessage_content (messages s))
          (valid_fragments env (takeWhile (\<lambda>l. \<not> line_fails env l) ls)))"
  using assms(2,3)
proof (induction ls arbitrary: s)
  case Nil
  then show ?case by simp
next
  case (Cons l ls)
  obtain k s' where step: "process_line env s l = (k, s')"
    by (cases "process_line env s l")
  from Cons.prems have ct: "carries_text env l" and rest: "\<forall>l\<in>set ls. carries_text env l"
    by simp_all
  show ?case
  proof (cases "is_event_line l")
    case False
    with process_line_other [of l env s] step
    have k: "k = Normal" and m: "messages s' = messages s" by simp_all
    from Cons.IH [OF rest, of s'] m Cons.prems(2) False k step show ?thesis
      by (simp add: line_fails_def)
  next
    case True
    show ?thesis
    proof (cases "fragment_of env l")
      case None
      from process_line_failing [OF True ct None, of s] step
      obtain e where k: "k = Throw e" and m: "messages s' = messages s" by auto
      from True None k m step Cons.prems(2) show ?thesis
        by (simp add: line_fails_def)
    next
      case (Some t)
      from process_line_fragment [OF True Some assms(1), of s] step
      have k: "k = Normal" and m: "messages s' =
          (if responseMessage_content (messages s) = [] \<and> t = newline then messages s
           else responseMessage_append t (messages s))" by simp_all
      from m Cons.prems(2) have ne: "messages s' \<noteq> []"
        by (simp add: responseMessage_append_nonempty)
      from m Cons.prems(2) have c: "responseMessage_content (messages s') =
          (if responseMessage_content (messages s) = [] \<and> t = newline
           then responseMessage_content (messages s)
           else responseMessage_content (messages s) @ t)"
        by (simp add: responseMessage_append_content)
      from Cons.IH [OF rest ne] c True Some k step show ?thesis
        by (simp add: line_fails_def)
    qed
  qed
qed


lemma process_chunk_messages:
  "messages (process_chunk env s v) = messages (snd (for_lines env s (split_newline v)))"
  by (simp add: process_chunk_def console_log_def split: prod.splits completion.splits)

lemma applied_lines_Cons:
  "applied_lines env (v # vs) =
     takeWhile (\<lambda>l. \<not> line_fails env l) (split_newline v) @ applied_lines env vs"
  by (simp add: applied_lines_def)

lemma after_chunks_content:
  assumes "textareaElement env"
    and "\<forall>l\<in>set (delivered_lines vs). carries_text env l"
    and "messages s \<noteq> []"
  shows "messages (after_chunks env s vs) \<noteq> []
    \<and> responseMessage_content (messages (after_chunks env s vs)) =
        responseMessage_content (messages s) @
        concat (kept_fragments (responseMessage_content (messages s))
          (valid_fragments env (applied_lines env vs)))"
  using assms(2,3)
proof (induction vs arbitrary: s)
  case Nil
  then show ?case by (simp add: applied_lines_def)
next
  case (Cons v vs)
  define s' where "s' = reader_read (process_chunk env s v)"
  from Cons.prems(1) have here: "\<forall>l\<in>set (split_newline v). carries_text env l"
    and rest: "\<forall>l\<in>set (delivered_lines vs). carries_text env l"
    by (simp_all add: delivered_lines_def)
  have m: "messages s' = messages (snd (for_lines env s (split_newline v)))"
    by (simp add: s'_def reader_read_def process_chunk_messages)
  from for_lines_content [OF assms(1) here Cons.prems(2)] m
  have ne: "messages s' \<noteq> []"
    and c: "responseMessage_content (messages s') =
        responseMessage_content (messages s) @
        concat (kept_fragments (responseMessage_content (messages s))
          (valid_fragments env (takeWhile (\<lambda>l. \<not> line_fails env l) (split_newline v))))"
    by simp_all
  from Cons.IH [OF rest ne] c show ?case
    by (simp add: s'_def [symmetric] applied_lines_Cons valid_fragments_append
        kept_fragments_append)
qed

lemma session_start:
  "messages (choose_responseMessage (issue_request env m s)) \<noteq> []"
  "responseMessage_content (messages (choose_responseMessage (issue_request env m s))) =
     initial_content (messages s)"
  by (simp_all add: choose_responseMessage_def issue_request_def invalidate_def
      last_is_assistant_def initial_content_def responseMessage_content_last)

text \<open>
  For any values of the reader, read to exhaustion: the content is the initial content
  followed by the kept fragments of the lines applied, which in each value are the lines
  before its first event line that is not a valid event, the try of lines 187 to 217
  enclosing the whole loop over a value's lines.
\<close>

lemma content_after_stream:
  assumes "selectedModelId s \<noteq> []"
    and "selectedModelId s \<in> model_id ` set (models env)"
    and "res env = Some r"
    and "ok r"
    and "textareaElement env"
    and "\<not> stopResponseFlag s"
    and "events env = map Chunk vs"
    and "\<forall>line\<in>set (delivered_lines vs). carries_text env line"
  shows "responseMessage_content (messages (chatCompletionHandler env s)) =
     initial_content (messages s) @
     concat (kept_fragments (initial_content (messages s))
       (valid_fragments env (applied_lines env vs)))"
proof -
  from assms(2) obtain m
    where f: "find (\<lambda>m. model_id m = selectedModelId s) (models env) = Some m"
    by (rule find_known_model)
  define s0 where "s0 = reader_read (choose_responseMessage (issue_request env m s))"
  have flag0: "\<not> stopResponseFlag s0"
    using assms(6)
    by (simp add: s0_def reader_read_def choose_responseMessage_fields issue_request_def)
  have m0: "messages s0 \<noteq> []"
    "responseMessage_content (messages s0) = initial_content (messages s)"
    using session_start [of env m s] by (simp_all add: s0_def reader_read_def)
  have "chatCompletionHandler env s = after_chunks env s0 vs"
    using handler_runs_loop [OF assms(1) f assms(3,4)] assms(7)
      read_pending_exhausted [OF flag0, of env vs]
    by (simp add: s0_def)
  with after_chunks_content [OF assms(5,8) m0(1)] m0(2) show ?thesis
    by simp
qed

text \<open>
  Where no value holds a newline, each value is one line, and the lines applied and the
  lines delivered carry the same fragments.
\<close>

lemma split_newline_one_line: "CHR 0x0A \<notin> set v \<Longrightarrow> split_newline v = [v]"
  by (induction v) (auto simp: newline_def)

lemma one_line_chunks_all_applied:
  assumes "\<forall>v\<in>set vs. CHR 0x0A \<notin> set v"
  shows "valid_fragments env (applied_lines env vs) = valid_fragments env (delivered_lines vs)"
  using assms
proof (induction vs)
  case Nil
  show ?case by (simp add: applied_lines_def delivered_lines_def)
next
  case (Cons v vs)
  then have one: "split_newline v = [v]" and rest: "\<forall>v\<in>set vs. CHR 0x0A \<notin> set v"
    by (simp_all add: split_newline_one_line)
  have here: "valid_fragments env (takeWhile (\<lambda>l. \<not> line_fails env l) [v]) =
      valid_fragments env [v]"
    by (auto simp: line_fails_def)
  have "valid_fragments env (applied_lines env (v # vs)) =
      valid_fragments env [v] @ valid_fragments env (applied_lines env vs)"
    using one here by (simp only: applied_lines_Cons valid_fragments_append)
  moreover have "valid_fragments env (delivered_lines (v # vs)) =
      valid_fragments env [v] @ valid_fragments env (delivered_lines vs)"
    using one valid_fragments_append [of env "[v]" "delivered_lines vs"]
    by (simp add: delivered_lines_def del: valid_fragments.simps)
  ultimately show ?case
    using Cons.IH [OF rest] by simp
qed

lemma split_newline_no_newline: "\<forall>l\<in>set (split_newline t). CHR 0x0A \<notin> set l"
  by (induction t) (auto simp: newline_def split: list.splits)

lemma splitStream_values: "\<forall>v\<in>set (splitStream pieces). CHR 0x0A \<notin> set v"
  by (simp add: splitStream_def split_newline_no_newline)

lemma delivered_lines_one_line:
  "\<forall>v\<in>set vs. CHR 0x0A \<notin> set v \<Longrightarrow> delivered_lines vs = vs"
  by (induction vs) (simp_all add: delivered_lines_def split_newline_one_line)

text \<open>
  C1, as amended. The decoder hands over any pieces and the reader delivers them cut at
  the newlines; the model is known, the response is ok, the stop flag is clear and no click
  comes, so the handler runs to stream exhaustion; of the collaborators of the
  specification's section 6, the assistant turn's textarea exists and the delta contents
  are of the wire format's type (a string, null or absent). Then the final content of the
  assistant turn is the content the turn held when streaming began, which is empty for a
  turn the handler appended, followed by the concatenation, in delivery order, of the
  fragments of all valid event lines without those the leading-newline rule elides. The
  claim leaves out what a reused turn already held.
\<close>

theorem fragments_in_order:
  assumes "selectedModelId s \<noteq> []"
    and "selectedModelId s \<in> model_id ` set (models env)"
    and "res env = Some r"
    and "ok r"
    and "textareaElement env"
    and "\<not> stopResponseFlag s"
    and "events env = map Chunk (splitStream pieces)"
    and "\<forall>line\<in>set (delivered_lines (splitStream pieces)). carries_text env line"
  shows "responseMessage_content (messages (chatCompletionHandler env s)) =
     initial_content (messages s) @
     concat (kept_fragments (initial_content (messages s))
       (valid_fragments env (delivered_lines (splitStream pieces))))"
  using content_after_stream [OF assms]
    one_line_chunks_all_applied [OF splitStream_values, of env pieces]
  by simp

theorem fragments_in_order_witness:
  "responseMessage_content
     (messages (chatCompletionHandler
        (example_env (map Chunk (splitStream (three_line_pieces @ [newline @ empty_delta_line]))))
        asked)) =
     ''Helloworld''"
  using fragments_in_order
    [of asked
        "example_env (map Chunk (splitStream (three_line_pieces @ [newline @ empty_delta_line])))"
        "\<lparr>ok = True\<rparr>" "three_line_pieces @ [newline @ empty_delta_line]"]
  by (simp add: three_line_pieces_def empty_delta_line_def splitStream_def example_env_def
      asked_def idle_def newline_def example_parse_def event_text_def event_json_def
      strip_data_prefix_def delta_content_def member_def element0_def last_is_assistant_def
      notion_simps)

text \<open>
  C1, as stated, fails. The last turn is an assistant turn that holds \<open>''So''\<close>, and the
  stream is one valid event with the fragment \<open>''Hello''\<close>. The handler reuses the turn
  and ends with the content \<open>''SoHello''\<close>; the concatenation of the fragments of all
  valid event lines, none of them elided, is \<open>''Hello''\<close>.
\<close>

theorem reused_turn_keeps_its_content:
  "responseMessage_content
     (messages (chatCompletionHandler
        (example_env (map Chunk (splitStream [''data: '' @ event_text ''Hello''])))
        seeded)) = ''SoHello''
   \<and> concat (kept_fragments (initial_content (messages seeded))
       (valid_fragments
          (example_env (map Chunk (splitStream [''data: '' @ event_text ''Hello''])))
          (delivered_lines (splitStream [''data: '' @ event_text ''Hello''])))) = ''Hello''"
  by (simp add: splitStream_def seeded_def run_simps notion_simps)

lemma for_lines_completes:
  assumes "textareaElement env"
    and "\<forall>l\<in>set ls. \<not> line_fails env l"
  shows "fst (for_lines env s ls) = Normal"
  using assms(2)
proof (induction ls arbitrary: s)
  case Nil
  show ?case by simp
next
  case (Cons l ls)
  obtain k s' where step: "process_line env s l = (k, s')"
    by (cases "process_line env s l")
  have "k = Normal"
  proof (cases "is_event_line l")
    case False
    with process_line_other [of l env s] step show ?thesis by simp
  next
    case True
    with Cons.prems obtain t where "fragment_of env l = Some t"
      by (auto simp: line_fails_def)
    from process_line_fragment(1) [OF True this assms(1), of s] step show ?thesis by simp
  qed
  with step Cons.IH [of s'] Cons.prems show ?case by simp
qed

lemma for_lines_append:
  "for_lines env s (ls @ ls') =
     (case for_lines env s ls of
        (Normal, s') \<Rightarrow> for_lines env s' ls'
      | (Throw e, s') \<Rightarrow> (Throw e, s'))"
  by (induction ls arbitrary: s) (simp_all split: prod.splits completion.splits)

lemma for_lines_malformed:
  assumes "textareaElement env"
    and "\<forall>l\<in>set before. \<not> line_fails env l"
    and "is_event_line bad"
    and "JSON_parse env (strip_data_prefix bad) = None"
  shows "fst (for_lines env s (before @ bad # after)) = Throw SyntaxError"
proof -
  obtain k s' where run: "for_lines env s before = (k, s')"
    by (cases "for_lines env s before")
  with for_lines_completes [OF assms(1,2), of s] have k: "k = Normal" by simp
  have "process_line env s' bad = (Throw SyntaxError, console_log (LogText bad) s')"
    using assms(3,4) by (simp add: process_line_def is_event_line_def)
  with run k show ?thesis by (simp add: for_lines_append)
qed

lemma logged_errors_append:
  "logged_errors (xs @ ys) = logged_errors xs @ logged_errors ys"
  by (induction xs rule: logged_errors.induct) simp_all

lemma process_line_errors:
  "logged_errors (console (snd (process_line env s l))) = logged_errors (console s)"
  by (simp add: process_line_def Let_def console_log_def invalidate_def logged_errors_append
      split: option.splits sum.splits bool.splits)

lemma for_lines_errors:
  "logged_errors (console (snd (for_lines env s ls))) = logged_errors (console s)"
proof (induction ls arbitrary: s)
  case Nil
  show ?case by simp
next
  case (Cons l ls)
  obtain k s' where step: "process_line env s l = (k, s')"
    by (cases "process_line env s l")
  have "logged_errors (console s') = logged_errors (console s)"
    using process_line_errors [of env s l] step by simp
  with step Cons.IH [of s'] show ?case by (cases k) simp_all
qed

lemma process_chunk_errors:
  "logged_errors (console (process_chunk env s v)) =
     logged_errors (console s) @
     (case fst (for_lines env s (split_newline v)) of Normal \<Rightarrow> [] | Throw e \<Rightarrow> [e])"
proof -
  obtain k s' where run: "for_lines env s (split_newline v) = (k, s')"
    by (cases "for_lines env s (split_newline v)")
  have "logged_errors (console s') = logged_errors (console s)"
    using for_lines_errors [of env s "split_newline v"] run by simp
  with run show ?thesis
    by (cases k) (simp_all add: process_chunk_def console_log_def logged_errors_append)
qed

lemma after_chunks_no_errors:
  assumes "textareaElement env"
    and "\<forall>l\<in>set (delivered_lines vs). \<not> line_fails env l"
  shows "logged_errors (console (after_chunks env s vs)) = logged_errors (console s)"
  using assms(2)
proof (induction vs arbitrary: s)
  case Nil
  show ?case by simp
next
  case (Cons v vs)
  from Cons.prems have here: "\<forall>l\<in>set (split_newline v). \<not> line_fails env l"
    and rest: "\<forall>l\<in>set (delivered_lines vs). \<not> line_fails env l"
    by (simp_all add: delivered_lines_def)
  have "logged_errors (console (reader_read (process_chunk env s v))) = logged_errors (console s)"
    using process_chunk_errors [of env s v] for_lines_completes [OF assms(1) here, of s]
    by (simp add: reader_read_def)
  with Cons.IH [OF rest, of "reader_read (process_chunk env s v)"] show ?case by simp
qed

lemma after_chunks_append:
  "after_chunks env s (vs @ ws) = after_chunks env (after_chunks env s vs) ws"
  by (induction vs arbitrary: s) simp_all

lemma applied_lines_append:
  "applied_lines env (vs @ ws) = applied_lines env vs @ applied_lines env ws"
  by (simp add: applied_lines_def)

lemma delivered_lines_append:
  "delivered_lines (vs @ ws) = delivered_lines vs @ delivered_lines ws"
  by (simp add: delivered_lines_def)

lemma applied_lines_all:
  "\<forall>l\<in>set (delivered_lines vs). \<not> line_fails env l \<Longrightarrow>
   applied_lines env vs = delivered_lines vs"
  by (induction vs) (simp_all add: applied_lines_def delivered_lines_def)


text \<open>
  For any values of the reader, read to exhaustion, one of which holds an event line that is
  not JSON among lines that do not fail: the error is logged once, the loop runs on, and
  what that value holds after the line is left unread.
\<close>

lemma malformed_chunk:
  assumes "selectedModelId s \<noteq> []"
    and "selectedModelId s \<in> model_id ` set (models env)"
    and "res env = Some r"
    and "ok r"
    and "textareaElement env"
    and "\<not> stopResponseFlag s"
    and "events env = map Chunk (pre @ v # post)"
    and "split_newline v = before @ bad # after"
    and "is_event_line bad"
    and "JSON_parse env (strip_data_prefix bad) = None"
    and "\<forall>line\<in>set (delivered_lines (pre @ v # post)). carries_text env line"
    and "\<forall>line\<in>set (delivered_lines pre @ before @ delivered_lines post). \<not> line_fails env line"
  shows "responseMessage_content (messages (chatCompletionHandler env s)) =
      initial_content (messages s) @
      concat (kept_fragments (initial_content (messages s))
        (valid_fragments env (delivered_lines pre @ before @ delivered_lines post)))
    \<and> logged_errors (console (chatCompletionHandler env s)) =
        logged_errors (console s) @ [SyntaxError]
    \<and> reads_issued (chatCompletionHandler env s) = reads_issued s + length pre + length post + 2
    \<and> aborts (chatCompletionHandler env s) = aborts s"
proof -
  from assms(2) obtain m
    where f: "find (\<lambda>m. model_id m = selectedModelId s) (models env) = Some m"
    by (rule find_known_model)
  define s0 where "s0 = reader_read (choose_responseMessage (issue_request env m s))"
  have flag0: "\<not> stopResponseFlag s0"
    using assms(6)
    by (simp add: s0_def reader_read_def choose_responseMessage_fields issue_request_def)
  have m0: "messages s0 \<noteq> []"
    "responseMessage_content (messages s0) = initial_content (messages s)"
    using session_start [of env m s] by (simp_all add: s0_def reader_read_def)
  have fields0: "aborts s0 = aborts s" "reads_issued s0 = Suc (reads_issued s)"
    "console s0 = console s"
    by (simp_all add: s0_def reader_read_def choose_responseMessage_fields issue_request_def)
  have run: "chatCompletionHandler env s = after_chunks env s0 (pre @ v # post)"
    using handler_runs_loop [OF assms(1) f assms(3,4)] assms(7)
      read_pending_exhausted [OF flag0, of env "pre @ v # post"]
    by (simp add: s0_def)
  have ok_pre: "\<forall>l\<in>set (delivered_lines pre). \<not> line_fails env l"
    and ok_before: "\<forall>l\<in>set before. \<not> line_fails env l"
    and ok_post: "\<forall>l\<in>set (delivered_lines post). \<not> line_fails env l"
    using assms(12) by simp_all
  have bad: "line_fails env bad"
    using assms(9,10) by (simp add: line_fails_def fragment_of_def)
  have "takeWhile (\<lambda>l. \<not> line_fails env l) (before @ bad # after) = before"
    using ok_before bad by (simp add: takeWhile_append2)
  then have "applied_lines env [v] = before"
    using assms(8) by (simp add: applied_lines_def)
  then have applied: "applied_lines env (pre @ v # post) =
      delivered_lines pre @ before @ delivered_lines post"
    using applied_lines_append [of env pre "[v] @ post"] applied_lines_append [of env "[v]" post]
      applied_lines_all [OF ok_pre] applied_lines_all [OF ok_post]
    by simp
  have content: "responseMessage_content (messages (chatCompletionHandler env s)) =
      initial_content (messages s) @
      concat (kept_fragments (initial_content (messages s))
        (valid_fragments env (delivered_lines pre @ before @ delivered_lines post)))"
    using after_chunks_content [OF assms(5,11) m0(1)] m0(2) run applied by simp
  define s1 where "s1 = after_chunks env s0 pre"
  define s2 where "s2 = reader_read (process_chunk env s1 v)"
  have split: "after_chunks env s0 (pre @ v # post) = after_chunks env s2 post"
    by (simp add: after_chunks_append s1_def s2_def)
  have e1: "logged_errors (console s1) = logged_errors (console s)"
    using after_chunks_no_errors [OF assms(5) ok_pre, of s0] fields0 by (simp add: s1_def)
  have "fst (for_lines env s1 (split_newline v)) = Throw SyntaxError"
    using for_lines_malformed [OF assms(5) ok_before assms(9,10), of s1 after] assms(8)
    by simp
  then have e2: "logged_errors (console s2) = logged_errors (console s) @ [SyntaxError]"
    using process_chunk_errors [of env s1 v] e1 by (simp add: s2_def reader_read_def)
  have errors: "logged_errors (console (chatCompletionHandler env s)) =
      logged_errors (console s) @ [SyntaxError]"
    using after_chunks_no_errors [OF assms(5) ok_post, of s2] e2 run split by simp
  have rest: "reads_issued (chatCompletionHandler env s) =
      reads_issued s + length pre + length post + 2"
    "aborts (chatCompletionHandler env s) = aborts s"
    using after_chunks_fields [of env s0 "pre @ v # post"] fields0 run by simp_all
  from content errors rest show ?thesis by blast
qed

text \<open>
  C2, as amended. The reader delivers the body cut at the newlines, the model is known, the
  response is ok, the stop flag is clear and no click comes, so the stream is read to
  exhaustion; the assistant turn's textarea exists; one line of the stream, \<open>bad\<close>, is
  an event line that is not JSON, and every line \<open>before\<close> and \<open>after\<close> it is a
  valid event with a content of the wire format's type, an empty line or the sentinel.
  Then the SyntaxError is caught and logged, the only error logged; the loop goes on to
  the end of the stream, a read for each value and the one that reports the end, and no
  abort; and the final content is the content the turn held when streaming began followed
  by the concatenation, in delivery order, of the fragments of all the valid lines, those
  after the invalid line as well as those before it, wherever the pieces of the body
  parted, without the fragments the leading-newline rule elides. The claim leaves out
  that rule and what a reused turn already held.
\<close>

theorem malformed_line_tolerance:
  assumes "selectedModelId s \<noteq> []"
    and "selectedModelId s \<in> model_id ` set (models env)"
    and "res env = Some r"
    and "ok r"
    and "textareaElement env"
    and "\<not> stopResponseFlag s"
    and "events env = map Chunk (splitStream pieces)"
    and "splitStream pieces = before @ bad # after"
    and "is_event_line bad"
    and "JSON_parse env (strip_data_prefix bad) = None"
    and "\<forall>line\<in>set (before @ after). carries_text env line \<and> \<not> line_fails env line"
  shows "responseMessage_content (messages (chatCompletionHandler env s)) =
      initial_content (messages s) @
      concat (kept_fragments (initial_content (messages s))
        (valid_fragments env (before @ after)))
    \<and> valid_fragments env (delivered_lines (splitStream pieces)) =
        valid_fragments env (before @ after)
    \<and> logged_errors (console (chatCompletionHandler env s)) =
        logged_errors (console s) @ [SyntaxError]
    \<and> reads_issued (chatCompletionHandler env s) =
        reads_issued s + length (splitStream pieces) + 1
    \<and> aborts (chatCompletionHandler env s) = aborts s"
proof -
  have one: "\<forall>v\<in>set (before @ bad # after). CHR 0x0A \<notin> set v"
    using splitStream_values [of pieces] assms(8) by simp
  then have lines: "delivered_lines before = before" "delivered_lines after = after"
    "delivered_lines (before @ bad # after) = before @ bad # after"
    by (simp_all add: delivered_lines_one_line)
  have bad: "split_newline bad = [] @ bad # []"
    using one by (simp add: split_newline_one_line)
  have "carries_text env bad"
    using assms(10) by (simp add: carries_text_def)
  with assms(11) lines
  have typed: "\<forall>line\<in>set (delivered_lines (before @ bad # after)). carries_text env line"
    by auto
  have good: "\<forall>line\<in>set (delivered_lines before @ [] @ delivered_lines after).
      \<not> line_fails env line"
    using assms(11) lines by auto
  have stream: "events env = map Chunk (before @ bad # after)"
    using assms(7,8) by simp
  have none: "fragment_of env bad = None"
    using assms(10) by (simp add: fragment_of_def)
  have all: "valid_fragments env (delivered_lines (splitStream pieces)) =
      valid_fragments env (before @ after)"
    using assms(8,9) lines(3) none
      valid_fragments_append [of env before "bad # after"]
      valid_fragments_append [of env before after]
    by simp
  from malformed_chunk [OF assms(1-6) stream bad assms(9,10) typed good] lines assms(8) all
  show ?thesis by simp
qed

theorem malformed_line_tolerance_witness:
  "responseMessage_content
     (messages (chatCompletionHandler
        (example_env (map Chunk (splitStream three_line_pieces))) asked)) = ''Helloworld''
   \<and> logged_errors (console (chatCompletionHandler
        (example_env (map Chunk (splitStream three_line_pieces))) asked)) = [SyntaxError]
   \<and> reads_issued (chatCompletionHandler
        (example_env (map Chunk (splitStream three_line_pieces))) asked) = 4"
  using malformed_line_tolerance
    [of asked "example_env (map Chunk (splitStream three_line_pieces))" "\<lparr>ok = True\<rparr>"
        three_line_pieces "[''data: '' @ event_text ''Hello'']" "''data: {oops''"
        "[''data: '' @ event_text ''world'']"]
  by (simp add: three_line_pieces_def splitStream_def example_env_def asked_def idle_def
      newline_def example_parse_def event_text_def event_json_def strip_data_prefix_def
      delta_content_def member_def element0_def last_is_assistant_def notion_simps)

text \<open>
  C2, as stated, fails. First, a new turn and the three lines: a valid event whose fragment
  is one newline, a line that is not JSON, a valid event with \<open>''world''\<close>. The newline
  meets empty content and is skipped, so the handler ends with \<open>''world''\<close>, while the
  fragments of all the valid lines concatenate to a newline and \<open>''world''\<close>. Second,
  the reused turn that holds \<open>''So''\<close> and the three lines with \<open>''Hello''\<close> first: the
  handler ends with \<open>''SoHelloworld''\<close>, the fragments concatenate to
  \<open>''Helloworld''\<close>.
\<close>

theorem skipped_newline_and_reused_turn:
  "responseMessage_content
     (messages (chatCompletionHandler
        (example_env (map Chunk (splitStream newline_first_pieces))) asked)) = ''world''
   \<and> concat (valid_fragments (example_env (map Chunk (splitStream newline_first_pieces)))
       (delivered_lines (splitStream newline_first_pieces))) = newline @ ''world''
   \<and> responseMessage_content
     (messages (chatCompletionHandler
        (example_env (map Chunk (splitStream three_line_pieces))) seeded)) = ''SoHelloworld''
   \<and> concat (valid_fragments (example_env (map Chunk (splitStream three_line_pieces)))
       (delivered_lines (splitStream three_line_pieces))) = ''Helloworld''"
  by (simp add: newline_first_pieces_def three_line_pieces_def splitStream_def seeded_def
      run_simps notion_simps)

subsection \<open>The turns during a session\<close>

lemma process_line_shape:
  assumes "messages s \<noteq> []"
  shows "(messages (snd (process_line env s l)) = messages s
      \<and> rendered (snd (process_line env s l)) = rendered s)
    \<or> (\<exists>t. messages (snd (process_line env s l)) = responseMessage_append t (messages s)
          \<and> rendered (snd (process_line env s l)) =
              rendered s @ [responseMessage_append t (messages s)])"
proof (cases "l = ''data: [DONE]''")
  case True
  have "responseMessage_append [] (messages s) = messages s"
    using assms by (simp add: responseMessage_append_same)
  then have "messages (snd (process_line env s l)) = responseMessage_append [] (messages s)
      \<and> rendered (snd (process_line env s l)) =
          rendered s @ [responseMessage_append [] (messages s)]"
    using True by (simp add: process_line_def invalidate_def console_log_def)
  then show ?thesis by blast
next
  case False
  then show ?thesis
    by (auto simp: process_line_def Let_def invalidate_def console_log_def
        split: option.splits sum.splits bool.splits)
qed

lemma steady_growth_append:
  assumes "steady_growth others c0 k ms shown"
  shows "steady_growth others c0 k (responseMessage_append t ms)
           (shown @ [responseMessage_append t ms])"
proof -
  from assms obtain c where k: "k \<le> length shown"
    and sorted: "sorted_wrt prefix (map responseMessage_content (drop k shown))"
    and ms: "ms = others @ [\<lparr>role = ''assistant'', content = c\<rparr>]"
    and c0: "prefix c0 c"
    and shown: "\<forall>x\<in>set (drop k shown).
        \<exists>d. x = others @ [\<lparr>role = ''assistant'', content = d\<rparr>] \<and> prefix c0 d \<and> prefix d c"
    by (auto simp: steady_growth_def)
  define ms' where "ms' = responseMessage_append t ms"
  have ms': "ms' = others @ [\<lparr>role = ''assistant'', content = c @ t\<rparr>]"
    by (simp add: ms'_def ms responseMessage_append_last)
  have c': "responseMessage_content ms' = c @ t"
    by (simp add: ms' responseMessage_content_last)
  have below: "\<forall>x\<in>set (drop k shown). prefix (responseMessage_content x) (c @ t)"
  proof
    fix x assume "x \<in> set (drop k shown)"
    with shown obtain d where "x = others @ [\<lparr>role = ''assistant'', content = d\<rparr>]" "prefix d c"
      by blast
    then show "prefix (responseMessage_content x) (c @ t)"
      by (simp add: responseMessage_content_last prefix_def) auto
  qed
  have "sorted_wrt prefix (map responseMessage_content (drop k (shown @ [ms'])))"
    using k sorted below by (simp add: sorted_wrt_append c')
  moreover have "prefix c0 (c @ t)"
    using c0 by (auto simp: prefix_def)
  moreover have "\<forall>x\<in>set (drop k (shown @ [ms'])).
      \<exists>d. x = others @ [\<lparr>role = ''assistant'', content = d\<rparr>] \<and> prefix c0 d \<and> prefix d (c @ t)"
  proof
    fix x assume "x \<in> set (drop k (shown @ [ms']))"
    with k have "x \<in> set (drop k shown) \<or> x = ms'" by auto
    then show "\<exists>d. x = others @ [\<lparr>role = ''assistant'', content = d\<rparr>]
        \<and> prefix c0 d \<and> prefix d (c @ t)"
    proof
      assume "x \<in> set (drop k shown)"
      with shown obtain d where "x = others @ [\<lparr>role = ''assistant'', content = d\<rparr>]"
        "prefix c0 d" "prefix d c" by blast
      then show ?thesis by (auto simp: prefix_def)
    next
      assume "x = ms'"
      with ms' \<open>prefix c0 (c @ t)\<close> show ?thesis by auto
    qed
  qed
  ultimately show ?thesis
    using k ms' by (simp add: steady_growth_def ms'_def [symmetric])
qed

lemma steady_growth_nonempty: "steady_growth others c0 k ms shown \<Longrightarrow> ms \<noteq> []"
  by (auto simp: steady_growth_def)

lemma process_line_growth:
  assumes "steady_growth others c0 k (messages s) (rendered s)"
  shows "steady_growth others c0 k (messages (snd (process_line env s l)))
           (rendered (snd (process_line env s l)))"
  using process_line_shape [OF steady_growth_nonempty [OF assms], of env l]
    assms steady_growth_append [OF assms]
  by auto

lemma for_lines_growth:
  assumes "steady_growth others c0 k (messages s) (rendered s)"
  shows "steady_growth others c0 k (messages (snd (for_lines env s ls)))
           (rendered (snd (for_lines env s ls)))"
  using assms
proof (induction ls arbitrary: s)
  case Nil
  then show ?case by simp
next
  case (Cons l ls)
  obtain j s' where step: "process_line env s l = (j, s')"
    by (cases "process_line env s l")
  have "steady_growth others c0 k (messages s') (rendered s')"
    using process_line_growth [OF Cons.prems, of env l] step by simp
  from Cons.IH [OF this] this step show ?case by (cases j) simp_all
qed

lemma process_chunk_growth:
  assumes "steady_growth others c0 k (messages s) (rendered s)"
  shows "steady_growth others c0 k (messages (process_chunk env s v))
           (rendered (process_chunk env s v))"
proof -
  obtain j s' where run: "for_lines env s (split_newline v) = (j, s')"
    by (cases "for_lines env s (split_newline v)")
  have "steady_growth others c0 k (messages s') (rendered s')"
    using for_lines_growth [OF assms, of env "split_newline v"] run by simp
  with run show ?thesis
    by (cases j) (simp_all add: process_chunk_def console_log_def)
qed

lemma read_pending_growth:
  assumes "steady_growth others c0 k (messages s) (rendered s)"
  shows "steady_growth others c0 k (messages (read_pending env s evs))
           (rendered (read_pending env s evs))"
  using assms
proof (induction evs arbitrary: s)
  case Nil
  then show ?case by (simp add: leave_loop_def controller_abort_def)
next
  case (Cons ev evs)
  show ?case
  proof (cases ev)
    case (Chunk v)
    have "steady_growth others c0 k (messages (reader_read (process_chunk env s v)))
        (rendered (reader_read (process_chunk env s v)))"
      using process_chunk_growth [OF Cons.prems, of env v] by (simp add: reader_read_def)
    from Cons.IH [OF this] Cons.prems Chunk show ?thesis
      by (simp add: leave_loop_def controller_abort_def)
  next
    case StopClick
    have "steady_growth others c0 k (messages (stopResponse s)) (rendered (stopResponse s))"
      using Cons.prems by (simp add: stopResponse_def console_log_def)
    from Cons.IH [OF this] StopClick show ?thesis by simp
  qed
qed

lemma turn_eq: "(m :: turn) = \<lparr>role = role m, content = content m\<rparr>"
  by (cases m) simp

lemma session_start_growth:
  "steady_growth
     (if last_is_assistant (messages s) then butlast (messages s) else messages s)
     (initial_content (messages s)) (length (rendered s))
     (messages (choose_responseMessage (issue_request env m s)))
     (rendered (choose_responseMessage (issue_request env m s)))"
proof (cases "last_is_assistant (messages s)")
  case True
  then have ne: "messages s \<noteq> []" and "role (last (messages s)) = ''assistant''"
    by (simp_all add: last_is_assistant_def)
  then have "last (messages s) =
      \<lparr>role = ''assistant'', content = content (last (messages s))\<rparr>"
    using turn_eq [of "last (messages s)"] by simp
  with append_butlast_last_id [OF ne] have "messages s =
      butlast (messages s) @ [\<lparr>role = ''assistant'', content = content (last (messages s))\<rparr>]"
    by metis
  moreover have "prefix (content (last (messages s))) (content (last (messages s)))"
    by simp
  ultimately have "\<exists>c. messages s = butlast (messages s) @ [\<lparr>role = ''assistant'', content = c\<rparr>]
      \<and> prefix (content (last (messages s))) c"
    by blast
  with True show ?thesis
    by (simp add: steady_growth_def choose_responseMessage_def issue_request_def
        initial_content_def)
next
  case False
  then show ?thesis
    by (simp add: steady_growth_def choose_responseMessage_def issue_request_def
        initial_content_def invalidate_def responseMessage_content_last)
qed

text \<open>
  C10. Whatever the response, the stream, the clicks and the parser do. Past the model
  precondition, every turn sequence the handler assigns to \<^verbatim>\<open>messages\<close> during the
  session, and the one it ends with, is the turns other than the target, unchanged,
  followed by one assistant turn (the turns other than the target are all the turns there
  were, or all but the last when the last was the assistant turn to reuse); and the
  contents of that assistant turn, taken in the order of the session from the initial
  content on, form a chain in which each one is a prefix of every later one. When the
  precondition fails the turns are not touched and nothing is assigned.
\<close>

theorem assistant_turn_only_grows:
  "if selectedModelId s \<noteq> [] \<and> selectedModelId s \<in> model_id ` set (models env) then
     (\<forall>ms\<in>set (drop (length (rendered s)) (rendered (chatCompletionHandler env s))
                 @ [messages (chatCompletionHandler env s)]).
        \<exists>c. ms = (if last_is_assistant (messages s) then butlast (messages s) else messages s)
                  @ [\<lparr>role = ''assistant'', content = c\<rparr>])
     \<and> sorted_wrt prefix
         (initial_content (messages s)
          # map responseMessage_content
              (drop (length (rendered s)) (rendered (chatCompletionHandler env s))
               @ [messages (chatCompletionHandler env s)]))
   else messages (chatCompletionHandler env s) = messages s
     \<and> rendered (chatCompletionHandler env s) = rendered s"
proof (cases "selectedModelId s \<noteq> [] \<and> selectedModelId s \<in> model_id ` set (models env)")
  case False
  then show ?thesis
    by (auto simp: chatCompletionHandler_def find_unknown_model)
next
  case True
  then have "selectedModelId s \<in> model_id ` set (models env)" by simp
  then obtain m
    where f: "find (\<lambda>m. model_id m = selectedModelId s) (models env) = Some m"
    by (rule find_known_model)
  define others where
    "others = (if last_is_assistant (messages s) then butlast (messages s) else messages s)"
  define s1 where "s1 = choose_responseMessage (issue_request env m s)"
  define h where "h = chatCompletionHandler env s"
  have start: "steady_growth others (initial_content (messages s)) (length (rendered s))
      (messages s1) (rendered s1)"
    using session_start_growth [of s env m] by (simp add: others_def s1_def)
  have "h = s1 \<or> h = read_pending env (reader_read s1) (events env)"
    using True f
    by (simp add: h_def s1_def chatCompletionHandler_def read_loop_def Let_def
        split: option.splits)
  moreover have "steady_growth others (initial_content (messages s)) (length (rendered s))
      (messages (reader_read s1)) (rendered (reader_read s1))"
    using start by (simp add: reader_read_def)
  ultimately have fin: "steady_growth others (initial_content (messages s)) (length (rendered s))
      (messages h) (rendered h)"
    using start read_pending_growth [of others _ _ "reader_read s1" env "events env"] by auto
  then obtain c where k: "length (rendered s) \<le> length (rendered h)"
    and sorted: "sorted_wrt prefix
        (map responseMessage_content (drop (length (rendered s)) (rendered h)))"
    and ms: "messages h = others @ [\<lparr>role = ''assistant'', content = c\<rparr>]"
    and c0: "prefix (initial_content (messages s)) c"
    and shown: "\<forall>x\<in>set (drop (length (rendered s)) (rendered h)).
        \<exists>d. x = others @ [\<lparr>role = ''assistant'', content = d\<rparr>]
          \<and> prefix (initial_content (messages s)) d \<and> prefix d c"
    by (auto simp: steady_growth_def)
  have c: "responseMessage_content (messages h) = c"
    by (simp add: ms responseMessage_content_last)
  have form: "\<forall>ms\<in>set (drop (length (rendered s)) (rendered h) @ [messages h]).
      \<exists>c. ms = others @ [\<lparr>role = ''assistant'', content = c\<rparr>]"
    using ms shown by auto
  have below: "\<forall>x\<in>set (drop (length (rendered s)) (rendered h)).
      prefix (initial_content (messages s)) (responseMessage_content x)
      \<and> prefix (responseMessage_content x) c"
  proof
    fix x assume "x \<in> set (drop (length (rendered s)) (rendered h))"
    with shown obtain d where "x = others @ [\<lparr>role = ''assistant'', content = d\<rparr>]"
      "prefix (initial_content (messages s)) d" "prefix d c" by blast
    then show "prefix (initial_content (messages s)) (responseMessage_content x)
      \<and> prefix (responseMessage_content x) c"
      by (simp add: responseMessage_content_last)
  qed
  have chain: "sorted_wrt prefix
      (initial_content (messages s)
       # map responseMessage_content (drop (length (rendered s)) (rendered h) @ [messages h]))"
    using sorted below c0 c by (simp add: sorted_wrt_append)
  from form chain True show ?thesis
    by (simp add: h_def others_def)
qed

theorem assistant_turn_only_grows_witness:
  "rendered (chatCompletionHandler
      (example_env (map Chunk (splitStream three_line_pieces))) asked) =
     [[\<lparr>role = ''user'', content = ''hi''\<rparr>, \<lparr>role = ''assistant'', content = []\<rparr>],
      [\<lparr>role = ''user'', content = ''hi''\<rparr>, \<lparr>role = ''assistant'', content = ''Hello''\<rparr>],
      [\<lparr>role = ''user'', content = ''hi''\<rparr>, \<lparr>role = ''assistant'', content = ''Helloworld''\<rparr>]]
   \<and> sorted_wrt prefix
     (initial_content (messages asked)
      # map responseMessage_content
          (drop (length (rendered asked))
             (rendered (chatCompletionHandler
                (example_env (map Chunk (splitStream three_line_pieces))) asked))
           @ [messages (chatCompletionHandler
                (example_env (map Chunk (splitStream three_line_pieces))) asked)]))"
proof -
  have run: "rendered (chatCompletionHandler
      (example_env (map Chunk (splitStream three_line_pieces))) asked) =
     [[\<lparr>role = ''user'', content = ''hi''\<rparr>, \<lparr>role = ''assistant'', content = []\<rparr>],
      [\<lparr>role = ''user'', content = ''hi''\<rparr>, \<lparr>role = ''assistant'', content = ''Hello''\<rparr>],
      [\<lparr>role = ''user'', content = ''hi''\<rparr>, \<lparr>role = ''assistant'', content = ''Helloworld''\<rparr>]]"
    by (simp add: three_line_pieces_def splitStream_def run_simps)
  have pre: "selectedModelId asked \<noteq> []
      \<and> selectedModelId asked \<in> model_id `
          set (models (example_env (map Chunk (splitStream three_line_pieces))))"
    by (simp add: asked_def idle_def example_env_def)
  from assistant_turn_only_grows
    [of asked "example_env (map Chunk (splitStream three_line_pieces))"]
    pre run
  show ?thesis by simp
qed

end
